theory Spec2Isabelle
  imports Main "HOL-Library.Word"
begin

unbundle bit_operations_syntax

section \<open>Machine types\<close>

text \<open>
  The target is a 32-bit Arm core: \<open>uint32_t\<close>, \<open>unsigned long\<close>, \<open>size_t\<close>,
  \<open>uintptr_t\<close> and object pointers are 32 bits wide, \<open>int32_t\<close> is a 32-bit word read
  in two's complement.
\<close>

type_synonym u32 = "32 word"

section \<open>Power control (power\_control.h)\<close>

subsection \<open>Field positions and masks\<close>

definition PDCM_PD_SENSE_MIN_PWR_STATE_Pos :: nat where
  "PDCM_PD_SENSE_MIN_PWR_STATE_Pos = 30"

definition PDCM_PD_SENSE_MIN_PWR_STATE_Msk :: u32 where
  "PDCM_PD_SENSE_MIN_PWR_STATE_Msk = push_bit PDCM_PD_SENSE_MIN_PWR_STATE_Pos 3"

definition CPUPWRCFG_TCM_MIN_PWR_STATE_Pos :: nat where
  "CPUPWRCFG_TCM_MIN_PWR_STATE_Pos = 4"

definition CPUPWRCFG_TCM_MIN_PWR_STATE_Msk :: u32 where
  "CPUPWRCFG_TCM_MIN_PWR_STATE_Msk = push_bit CPUPWRCFG_TCM_MIN_PWR_STATE_Pos 1"

subsection \<open>The PDCM minimum power states\<close>

datatype PDCM_MIN_PWR_STATES =
  PDCM_MIN_PWR_STATE_OFF | PDCM_MIN_PWR_STATE_RET | PDCM_MIN_PWR_STATE_ON

text \<open>The enumerators' values: the first is 0, each next one is one more.\<close>

fun pdcm_value :: "PDCM_MIN_PWR_STATES \<Rightarrow> u32" where
  "pdcm_value PDCM_MIN_PWR_STATE_OFF = 0"
| "pdcm_value PDCM_MIN_PWR_STATE_RET = 1"
| "pdcm_value PDCM_MIN_PWR_STATE_ON = 2"

subsection \<open>The register blocks\<close>

text \<open>
  The two register blocks are reached through the file's static pointers \<open>sysctrl\<close> and
  \<open>pwrctrl\<close>. Their struct declarations are in platform\_regs.h; the records hold the
  members this header reads and writes, and every other member is in the record's
  extension part, which no function here touches.
\<close>

record sysctrl_t =
  pdcm_pd_sys_sense :: u32
  pdcm_pd_vmr0_sense :: u32
  pdcm_pd_vmr1_sense :: u32

record cpu0_pwrctrl_t =
  cpupwrcfg :: u32

subsection \<open>Setting one power domain\<close>

definition PD_VMR0_SET_MIN_PWR_STATE ::
  "PDCM_MIN_PWR_STATES \<Rightarrow> 'a sysctrl_t_scheme \<Rightarrow> 'a sysctrl_t_scheme" where
  "PD_VMR0_SET_MIN_PWR_STATE min_pwr_state sysctrl =
     sysctrl\<lparr>pdcm_pd_vmr0_sense :=
       (pdcm_pd_vmr0_sense sysctrl AND NOT PDCM_PD_SENSE_MIN_PWR_STATE_Msk) OR
       (push_bit PDCM_PD_SENSE_MIN_PWR_STATE_Pos (pdcm_value min_pwr_state) AND
        PDCM_PD_SENSE_MIN_PWR_STATE_Msk)\<rparr>"

definition PD_VMR1_SET_MIN_PWR_STATE ::
  "PDCM_MIN_PWR_STATES \<Rightarrow> 'a sysctrl_t_scheme \<Rightarrow> 'a sysctrl_t_scheme" where
  "PD_VMR1_SET_MIN_PWR_STATE min_pwr_state sysctrl =
     sysctrl\<lparr>pdcm_pd_vmr1_sense :=
       (pdcm_pd_vmr1_sense sysctrl AND NOT PDCM_PD_SENSE_MIN_PWR_STATE_Msk) OR
       (push_bit PDCM_PD_SENSE_MIN_PWR_STATE_Pos (pdcm_value min_pwr_state) AND
        PDCM_PD_SENSE_MIN_PWR_STATE_Msk)\<rparr>"

definition PD_SYS_SET_MIN_PWR_STATE ::
  "PDCM_MIN_PWR_STATES \<Rightarrow> 'a sysctrl_t_scheme \<Rightarrow> 'a sysctrl_t_scheme" where
  "PD_SYS_SET_MIN_PWR_STATE min_pwr_state sysctrl =
     sysctrl\<lparr>pdcm_pd_sys_sense :=
       (pdcm_pd_sys_sense sysctrl AND NOT PDCM_PD_SENSE_MIN_PWR_STATE_Msk) OR
       (push_bit PDCM_PD_SENSE_MIN_PWR_STATE_Pos (pdcm_value min_pwr_state) AND
        PDCM_PD_SENSE_MIN_PWR_STATE_Msk)\<rparr>"

definition PD_CPU0_TCM_SET_MIN_PWR_STATE ::
  "PDCM_MIN_PWR_STATES \<Rightarrow> 'a cpu0_pwrctrl_t_scheme \<Rightarrow> 'a cpu0_pwrctrl_t_scheme" where
  "PD_CPU0_TCM_SET_MIN_PWR_STATE min_pwr_state pwrctrl =
     pwrctrl\<lparr>cpupwrcfg :=
       (cpupwrcfg pwrctrl AND NOT CPUPWRCFG_TCM_MIN_PWR_STATE_Msk) OR
       (push_bit CPUPWRCFG_TCM_MIN_PWR_STATE_Pos (pdcm_value min_pwr_state) AND
        CPUPWRCFG_TCM_MIN_PWR_STATE_Msk)\<rparr>"

subsection \<open>Setting a bounded region\<close>

text \<open>Three calls in sequence: SYS first, then VMR0, then VMR1.\<close>

definition BR_SYS_SET_MIN_PWR_STATE_OFF :: "'a sysctrl_t_scheme \<Rightarrow> 'a sysctrl_t_scheme" where
  "BR_SYS_SET_MIN_PWR_STATE_OFF sysctrl =
     PD_VMR1_SET_MIN_PWR_STATE PDCM_MIN_PWR_STATE_OFF
       (PD_VMR0_SET_MIN_PWR_STATE PDCM_MIN_PWR_STATE_OFF
         (PD_SYS_SET_MIN_PWR_STATE PDCM_MIN_PWR_STATE_OFF sysctrl))"

definition BR_SYS_SET_MIN_PWR_STATE_MEM_RET_OPMODE0 ::
  "'a sysctrl_t_scheme \<Rightarrow> 'a sysctrl_t_scheme" where
  "BR_SYS_SET_MIN_PWR_STATE_MEM_RET_OPMODE0 sysctrl =
     PD_VMR1_SET_MIN_PWR_STATE PDCM_MIN_PWR_STATE_OFF
       (PD_VMR0_SET_MIN_PWR_STATE PDCM_MIN_PWR_STATE_OFF
         (PD_SYS_SET_MIN_PWR_STATE PDCM_MIN_PWR_STATE_OFF sysctrl))"

section \<open>Multi-core boundary (tfm\_multi\_core.h)\<close>

text \<open>
  The header declares the memory-access check and the client-ID registry. Its flag
  macros, the security attribute struct and the owner sentinel are taken from it as they
  are. The bodies of the declared functions and the static tables they walk are not
  part of the sources; the region classifier and the registration are modelled from
  the specification, each part marked so.
\<close>

subsection \<open>Constants and structs of the header\<close>

definition MEM_CHECK_MPU_READWRITE :: u32 where
  "MEM_CHECK_MPU_READWRITE = push_bit 0 1"

definition MEM_CHECK_AU_NONSECURE :: u32 where
  "MEM_CHECK_AU_NONSECURE = push_bit 1 1"

definition MEM_CHECK_MPU_UNPRIV :: u32 where
  "MEM_CHECK_MPU_UNPRIV = push_bit 2 1"

definition MEM_CHECK_MPU_READ :: u32 where
  "MEM_CHECK_MPU_READ = push_bit 3 1"

definition MEM_CHECK_MPU_NONSECURE :: u32 where
  "MEM_CHECK_MPU_NONSECURE = push_bit 4 1"

definition MEM_CHECK_NONSECURE :: u32 where
  "MEM_CHECK_NONSECURE = MEM_CHECK_AU_NONSECURE OR MEM_CHECK_MPU_NONSECURE"

definition CLIENT_ID_OWNER_MAGIC :: u32 where
  "CLIENT_ID_OWNER_MAGIC = 0xFFFFFFFF"

definition NULL :: u32 where
  "NULL = 0"

record security_attr_info_t =
  is_valid :: bool
  is_secure :: bool

subsection \<open>Region classifier\<close>

text \<open>
  Modelled from the spec: the static memory-region layout table, which is missing from
  the sources. An entry is the specification's MemoryRegion (base and size) with the
  secure/non-secure tag given to it at configuration time.
\<close>

record MemoryRegion =
  region_base :: u32
  region_size :: u32
  tag_secure :: bool

text \<open>
  Modelled from the spec: the derived limit \<open>base + size\<close> of a region of the missing
  table, taken as a number, so that it does not wrap.
\<close>

definition limit :: "'a MemoryRegion_scheme \<Rightarrow> nat" where
  "limit r = unat (region_base r) + unat (region_size r)"

text \<open>
  Modelled from the spec: the body of the range-containment helper
  (\<open>check_address_range\<close> in the header, \<open>contains\<close> in the specification), which is
  missing from the sources. The range \<open>[p, p+s)\<close> is inside the region when
  \<open>region_start \<le> p\<close> and \<open>p + s \<le> region_limit\<close>; the sum is taken as a number, so a
  range that runs over the end of the address space is inside no region.
\<close>

definition contains :: "u32 \<Rightarrow> u32 \<Rightarrow> u32 \<Rightarrow> nat \<Rightarrow> bool" where
  "contains p s region_start region_limit =
     (unat region_start \<le> unat p \<and> unat p + unat s \<le> region_limit)"

text \<open>
  Modelled from the spec: the match test of the missing table walk. A zero-size range
  is malformed input and is treated as not found: it matches no region. A non-empty
  range matches a region when the region fully contains it.
\<close>

definition matches :: "'a MemoryRegion_scheme \<Rightarrow> u32 \<Rightarrow> u32 \<Rightarrow> bool" where
  "matches r p s = (s \<noteq> 0 \<and> contains p s (region_base r) (limit r))"

text \<open>
  Modelled from the spec: the body of \<open>tfm_get_mem_region_security_attr\<close> (the
  specification's \<open>classify\<close>), which is missing from the sources. It walks the table in
  order; the first region that matches the range gives \<open>is_valid = true\<close> and its tag;
  with no such region \<open>is_valid = false\<close>. The specification leaves \<open>is_secure\<close> open in
  that case (it is written as \<open>False\<close> here, and nothing below reads it).
\<close>

fun classify :: "MemoryRegion list \<Rightarrow> u32 \<Rightarrow> u32 \<Rightarrow> security_attr_info_t" where
  "classify [] p s = \<lparr>security_attr_info_t.is_valid = False, is_secure = False\<rparr>"
| "classify (r # rs) p s =
     (if matches r p s
      then \<lparr>security_attr_info_t.is_valid = True, is_secure = tag_secure r\<rparr>
      else classify rs p s)"

text \<open>
  Modelled from the spec: the build-time configuration the declared query reads, missing
  from the sources: the layout table. The query fills its \<open>p_attr\<close> argument, which is
  the value returned here.
\<close>

record layout =
  regions :: "MemoryRegion list"

definition tfm_get_mem_region_security_attr :: "layout \<Rightarrow> u32 \<Rightarrow> u32 \<Rightarrow> security_attr_info_t" where
  "tfm_get_mem_region_security_attr L p s = classify (regions L) p s"

subsection \<open>Client-identity registry\<close>

text \<open>
  Modelled from the spec: a slot of the registry table \<open>ns_mailbox_client_id_info[]\<close>,
  which is missing from the sources. Client IDs are \<open>int32_t\<close>, held as 32-bit words.
  An owner is a pointer; the owner \<open>CLIENT_ID_OWNER_MAGIC\<close> marks an unregistered slot.
\<close>

record ClientIdRange =
  irq_source :: u32
  id_low :: u32
  id_high :: u32
  owner :: u32

type_synonym registry = "ClientIdRange list"

text \<open>
  Modelled from the spec: the failures of the registration, whose body is missing from
  the sources, and the test for a real owner, which is neither null nor the sentinel.
\<close>

datatype reg_error = InvalidOwner | NotFound | AlreadyRegistered

definition valid_owner :: "u32 \<Rightarrow> bool" where
  "valid_owner ow = (ow \<noteq> NULL \<and> ow \<noteq> CLIENT_ID_OWNER_MAGIC)"

text \<open>
  Modelled from the spec: the scan of \<open>register_range\<close> over the slots, in table order.
  The first slot with the given interrupt source is the matching slot: bound already,
  the call fails with AlreadyRegistered; unbound, it takes the owner. No matching slot:
  NotFound.
\<close>

fun bind_slot :: "u32 \<Rightarrow> u32 \<Rightarrow> registry \<Rightarrow> reg_error + registry" where
  "bind_slot ow irq [] = Inl NotFound"
| "bind_slot ow irq (sl # rest) =
     (if irq_source sl = irq
      then (if owner sl \<noteq> CLIENT_ID_OWNER_MAGIC then Inl AlreadyRegistered
            else Inr (sl\<lparr>owner := ow\<rparr> # rest))
      else (case bind_slot ow irq rest of
              Inl e \<Rightarrow> Inl e
            | Inr rest' \<Rightarrow> Inr (sl # rest')))"

text \<open>
  Modelled from the spec: the body of \<open>tfm_multi_core_register_client_id_range\<close> (the
  specification's \<open>register_range\<close>), which is missing from the sources. An owner that
  is null or the sentinel is refused with InvalidOwner; otherwise the slots are
  scanned. The result is the failure, or the registry with the new binding.
\<close>

definition register_range :: "u32 \<Rightarrow> u32 \<Rightarrow> registry \<Rightarrow> reg_error + registry" where
  "register_range ow irq reg =
     (if ow = NULL \<or> ow = CLIENT_ID_OWNER_MAGIC then Inl InvalidOwner
      else bind_slot ow irq reg)"

text \<open>
  Modelled from the spec: the registry a call leaves behind. A successful call leaves
  the registry with its binding; a failing call binds nothing.
\<close>

definition after_call :: "u32 \<Rightarrow> u32 \<Rightarrow> registry \<Rightarrow> registry" where
  "after_call ow irq reg =
     (case register_range ow irq reg of
        Inl e \<Rightarrow> reg
      | Inr reg' \<Rightarrow> reg')"

text \<open>A sequence of registration calls, each an owner and an interrupt source.\<close>

fun register_all :: "(u32 \<times> u32) list \<Rightarrow> registry \<Rightarrow> registry" where
  "register_all [] reg = reg"
| "register_all ((ow, irq) # calls) reg = register_all calls (after_call ow irq reg)"

subsection \<open>States of the registry\<close>

text \<open>The table as built: every slot carries the sentinel owner.\<close>

definition unregistered :: "registry \<Rightarrow> bool" where
  "unregistered reg = list_all (\<lambda>sl. owner sl = CLIENT_ID_OWNER_MAGIC) reg"

text \<open>The owner in the matching slot of an interrupt source, if the source has a slot.\<close>

fun slot_owner :: "u32 \<Rightarrow> registry \<Rightarrow> u32 option" where
  "slot_owner irq [] = None"
| "slot_owner irq (sl # rest) =
     (if irq_source sl = irq then Some (owner sl) else slot_owner irq rest)"

text \<open>The slots of an interrupt source that are bound to a non-sentinel owner.\<close>

definition bound_slots :: "u32 \<Rightarrow> registry \<Rightarrow> registry" where
  "bound_slots irq reg =
     filter (\<lambda>sl. irq_source sl = irq \<and> owner sl \<noteq> CLIENT_ID_OWNER_MAGIC) reg"

text \<open>
  The invariant of the scan: a slot that comes after another slot of the same interrupt
  source is unbound.
\<close>

fun first_match_only :: "registry \<Rightarrow> bool" where
  "first_match_only [] = True"
| "first_match_only (sl # rest) =
     (list_all (\<lambda>sl'. irq_source sl' \<noteq> irq_source sl \<or> owner sl' = CLIENT_ID_OWNER_MAGIC) rest
      \<and> first_match_only rest)"

subsection \<open>Well-formed layouts and the position of a range\<close>

text \<open>
  Regions are non-overlapping address spans: two regions overlap when each starts
  below the other's limit, and a layout table is well formed when no two of its entries
  do.
\<close>

definition regions_overlap :: "'a MemoryRegion_scheme \<Rightarrow> 'b MemoryRegion_scheme \<Rightarrow> bool" where
  "regions_overlap r r' =
     (unat (region_base r) < limit r' \<and> unat (region_base r') < limit r)"

fun non_overlapping :: "MemoryRegion list \<Rightarrow> bool" where
  "non_overlapping [] = True"
| "non_overlapping (r # rs) =
     (list_all (\<lambda>r'. \<not> regions_overlap r r') rs \<and> non_overlapping rs)"

text \<open>The range \<open>[p, p+s)\<close> is fully contained in a region.\<close>

definition fully_inside :: "u32 \<Rightarrow> u32 \<Rightarrow> 'a MemoryRegion_scheme \<Rightarrow> bool" where
  "fully_inside p s r = (unat (region_base r) \<le> unat p \<and> unat p + unat s \<le> limit r)"

text \<open>The range \<open>[p, p+s)\<close> and a region have a byte in common.\<close>

definition range_overlaps :: "u32 \<Rightarrow> u32 \<Rightarrow> 'a MemoryRegion_scheme \<Rightarrow> bool" where
  "range_overlaps p s r = (unat p < limit r \<and> unat (region_base r) < unat p + unat s)"

definition spans_two :: "MemoryRegion list \<Rightarrow> u32 \<Rightarrow> u32 \<Rightarrow> bool" where
  "spans_two tbl p s =
     list_ex (\<lambda>r. list_ex (\<lambda>r'. r \<noteq> r' \<and> range_overlaps p s r \<and> range_overlaps p s r') tbl) tbl"

definition overlaps_none :: "MemoryRegion list \<Rightarrow> u32 \<Rightarrow> u32 \<Rightarrow> bool" where
  "overlaps_none tbl p s = list_all (\<lambda>r. \<not> range_overlaps p s r) tbl"

subsection \<open>Example configurations\<close>

text \<open>
  The secure region \<open>[0x2000_0000, 0x2000_1000)\<close> of the specification's boundary
  scenario, followed by an adjacent non-secure region of the same size.
\<close>

definition secure_ram :: MemoryRegion where
  "secure_ram = \<lparr>region_base = 0x20000000, region_size = 0x1000, tag_secure = True\<rparr>"

definition ns_ram :: MemoryRegion where
  "ns_ram = \<lparr>region_base = 0x20001000, region_size = 0x1000, tag_secure = False\<rparr>"

definition boundary_table :: "MemoryRegion list" where
  "boundary_table = [secure_ram, ns_ram]"

text \<open>
  The slot of the specification's registry scenario, unregistered, and two owners.
\<close>

definition scenario_slot :: ClientIdRange where
  "scenario_slot = \<lparr>irq_source = 5, id_low = 1, id_high = 4, owner = CLIENT_ID_OWNER_MAGIC\<rparr>"

definition ownerA :: u32 where
  "ownerA = 0x30000100"

definition ownerB :: u32 where
  "ownerB = 0x30000200"

section \<open>Properties of the power control\<close>

lemma tcm_msk_value: "CPUPWRCFG_TCM_MIN_PWR_STATE_Msk = 16"
  by (simp add: CPUPWRCFG_TCM_MIN_PWR_STATE_Msk_def CPUPWRCFG_TCM_MIN_PWR_STATE_Pos_def)

lemma tcm_field_value:
  "push_bit CPUPWRCFG_TCM_MIN_PWR_STATE_Pos (pdcm_value m) AND CPUPWRCFG_TCM_MIN_PWR_STATE_Msk
     = (if m = PDCM_MIN_PWR_STATE_RET then 16 else 0)"
  by (cases m) (simp_all add: tcm_msk_value CPUPWRCFG_TCM_MIN_PWR_STATE_Pos_def)

lemma tcm_set_cpupwrcfg:
  "cpupwrcfg (PD_CPU0_TCM_SET_MIN_PWR_STATE m pwrctrl) =
     (if m = PDCM_MIN_PWR_STATE_RET then (cpupwrcfg pwrctrl AND NOT 16) OR 16
      else cpupwrcfg pwrctrl AND NOT 16)"
  unfolding PD_CPU0_TCM_SET_MIN_PWR_STATE_def tcm_field_value
  by (simp add: tcm_msk_value)

text \<open>
  C9. Whatever \<open>cpupwrcfg\<close> holds, \<open>PD_CPU0_TCM_SET_MIN_PWR_STATE\<close> leaves the same
  register block when called with ON as when called with OFF: ON is encoded as 2, which
  shifted to bit 5 is outside the one-bit mask at bit 4 and is cut to 0. Bit 4 of the
  written register is set for RET and for no other state.
\<close>

theorem tcm_on_equals_off:
  "PD_CPU0_TCM_SET_MIN_PWR_STATE PDCM_MIN_PWR_STATE_ON pwrctrl =
     PD_CPU0_TCM_SET_MIN_PWR_STATE PDCM_MIN_PWR_STATE_OFF pwrctrl
   \<and> push_bit CPUPWRCFG_TCM_MIN_PWR_STATE_Pos (pdcm_value PDCM_MIN_PWR_STATE_ON)
       AND CPUPWRCFG_TCM_MIN_PWR_STATE_Msk = 0
   \<and> bit (cpupwrcfg (PD_CPU0_TCM_SET_MIN_PWR_STATE m pwrctrl)) CPUPWRCFG_TCM_MIN_PWR_STATE_Pos
       = (m = PDCM_MIN_PWR_STATE_RET)"
proof -
  have same: "PD_CPU0_TCM_SET_MIN_PWR_STATE PDCM_MIN_PWR_STATE_ON pwrctrl =
     PD_CPU0_TCM_SET_MIN_PWR_STATE PDCM_MIN_PWR_STATE_OFF pwrctrl"
    unfolding PD_CPU0_TCM_SET_MIN_PWR_STATE_def tcm_field_value by simp
  have cut: "push_bit CPUPWRCFG_TCM_MIN_PWR_STATE_Pos (pdcm_value PDCM_MIN_PWR_STATE_ON)
       AND CPUPWRCFG_TCM_MIN_PWR_STATE_Msk = 0"
    unfolding tcm_field_value by simp
  have b16: "bit (16 :: u32) 4"
    by (simp add: bit_iff_odd)
  have only_ret: "bit (cpupwrcfg (PD_CPU0_TCM_SET_MIN_PWR_STATE m pwrctrl))
       CPUPWRCFG_TCM_MIN_PWR_STATE_Pos = (m = PDCM_MIN_PWR_STATE_RET)"
    using b16
    by (simp add: tcm_set_cpupwrcfg CPUPWRCFG_TCM_MIN_PWR_STATE_Pos_def bit_or_iff bit_and_iff
        bit_not_iff)
  from same cut only_ret show ?thesis by simp
qed

lemma sense_not_msk: "NOT PDCM_PD_SENSE_MIN_PWR_STATE_Msk = mask 30"
  by (simp add: PDCM_PD_SENSE_MIN_PWR_STATE_Msk_def PDCM_PD_SENSE_MIN_PWR_STATE_Pos_def
      mask_numeral)

text \<open>
  C10. \<open>BR_SYS_SET_MIN_PWR_STATE_OFF\<close> and \<open>BR_SYS_SET_MIN_PWR_STATE_MEM_RET_OPMODE0\<close>
  are the same function of the register block: from any state both clear the
  MIN\_PWR\_STATE field (bits 31 and 30, the encoding of OFF) of \<open>pdcm_pd_sys_sense\<close>,
  \<open>pdcm_pd_vmr0_sense\<close> and \<open>pdcm_pd_vmr1_sense\<close>, keep every other bit of the three
  registers and every other member of the block, and so end in identical states.
\<close>

theorem br_sys_off_equals_mem_ret_opmode0:
  "BR_SYS_SET_MIN_PWR_STATE_OFF sysctrl = BR_SYS_SET_MIN_PWR_STATE_MEM_RET_OPMODE0 sysctrl
   \<and> BR_SYS_SET_MIN_PWR_STATE_OFF sysctrl =
       sysctrl\<lparr>pdcm_pd_sys_sense := pdcm_pd_sys_sense sysctrl AND NOT PDCM_PD_SENSE_MIN_PWR_STATE_Msk,
               pdcm_pd_vmr0_sense := pdcm_pd_vmr0_sense sysctrl AND NOT PDCM_PD_SENSE_MIN_PWR_STATE_Msk,
               pdcm_pd_vmr1_sense := pdcm_pd_vmr1_sense sysctrl AND NOT PDCM_PD_SENSE_MIN_PWR_STATE_Msk\<rparr>
   \<and> drop_bit PDCM_PD_SENSE_MIN_PWR_STATE_Pos (pdcm_pd_sys_sense (BR_SYS_SET_MIN_PWR_STATE_OFF sysctrl))
       = pdcm_value PDCM_MIN_PWR_STATE_OFF
   \<and> drop_bit PDCM_PD_SENSE_MIN_PWR_STATE_Pos (pdcm_pd_vmr0_sense (BR_SYS_SET_MIN_PWR_STATE_OFF sysctrl))
       = pdcm_value PDCM_MIN_PWR_STATE_OFF
   \<and> drop_bit PDCM_PD_SENSE_MIN_PWR_STATE_Pos (pdcm_pd_vmr1_sense (BR_SYS_SET_MIN_PWR_STATE_OFF sysctrl))
       = pdcm_value PDCM_MIN_PWR_STATE_OFF
   \<and> take_bit PDCM_PD_SENSE_MIN_PWR_STATE_Pos (pdcm_pd_sys_sense (BR_SYS_SET_MIN_PWR_STATE_OFF sysctrl))
       = take_bit PDCM_PD_SENSE_MIN_PWR_STATE_Pos (pdcm_pd_sys_sense sysctrl)
   \<and> take_bit PDCM_PD_SENSE_MIN_PWR_STATE_Pos (pdcm_pd_vmr0_sense (BR_SYS_SET_MIN_PWR_STATE_OFF sysctrl))
       = take_bit PDCM_PD_SENSE_MIN_PWR_STATE_Pos (pdcm_pd_vmr0_sense sysctrl)
   \<and> take_bit PDCM_PD_SENSE_MIN_PWR_STATE_Pos (pdcm_pd_vmr1_sense (BR_SYS_SET_MIN_PWR_STATE_OFF sysctrl))
       = take_bit PDCM_PD_SENSE_MIN_PWR_STATE_Pos (pdcm_pd_vmr1_sense sysctrl)"
proof -
  have eq: "BR_SYS_SET_MIN_PWR_STATE_OFF sysctrl = BR_SYS_SET_MIN_PWR_STATE_MEM_RET_OPMODE0 sysctrl"
    by (simp add: BR_SYS_SET_MIN_PWR_STATE_OFF_def BR_SYS_SET_MIN_PWR_STATE_MEM_RET_OPMODE0_def)
  have shape: "BR_SYS_SET_MIN_PWR_STATE_OFF sysctrl =
       sysctrl\<lparr>pdcm_pd_sys_sense := pdcm_pd_sys_sense sysctrl AND NOT PDCM_PD_SENSE_MIN_PWR_STATE_Msk,
               pdcm_pd_vmr0_sense := pdcm_pd_vmr0_sense sysctrl AND NOT PDCM_PD_SENSE_MIN_PWR_STATE_Msk,
               pdcm_pd_vmr1_sense := pdcm_pd_vmr1_sense sysctrl AND NOT PDCM_PD_SENSE_MIN_PWR_STATE_Msk\<rparr>"
    by (simp add: BR_SYS_SET_MIN_PWR_STATE_OFF_def PD_SYS_SET_MIN_PWR_STATE_def
        PD_VMR0_SET_MIN_PWR_STATE_def PD_VMR1_SET_MIN_PWR_STATE_def)
  have hi: "drop_bit PDCM_PD_SENSE_MIN_PWR_STATE_Pos (w AND NOT PDCM_PD_SENSE_MIN_PWR_STATE_Msk) = 0"
    for w :: u32
    unfolding sense_not_msk PDCM_PD_SENSE_MIN_PWR_STATE_Pos_def
    by (simp add: take_bit_eq_mask [symmetric] drop_bit_take_bit)
  have lo: "take_bit PDCM_PD_SENSE_MIN_PWR_STATE_Pos (w AND NOT PDCM_PD_SENSE_MIN_PWR_STATE_Msk)
      = take_bit PDCM_PD_SENSE_MIN_PWR_STATE_Pos w" for w :: u32
    unfolding sense_not_msk PDCM_PD_SENSE_MIN_PWR_STATE_Pos_def
    by (simp add: take_bit_eq_mask [symmetric])
  have fields:
    "pdcm_pd_sys_sense (BR_SYS_SET_MIN_PWR_STATE_OFF sysctrl) =
       pdcm_pd_sys_sense sysctrl AND NOT PDCM_PD_SENSE_MIN_PWR_STATE_Msk"
    "pdcm_pd_vmr0_sense (BR_SYS_SET_MIN_PWR_STATE_OFF sysctrl) =
       pdcm_pd_vmr0_sense sysctrl AND NOT PDCM_PD_SENSE_MIN_PWR_STATE_Msk"
    "pdcm_pd_vmr1_sense (BR_SYS_SET_MIN_PWR_STATE_OFF sysctrl) =
       pdcm_pd_vmr1_sense sysctrl AND NOT PDCM_PD_SENSE_MIN_PWR_STATE_Msk"
    by (simp_all add: shape)
  show ?thesis
    unfolding fields hi lo using eq shape by simp
qed

section \<open>Properties of the header's constants\<close>

text \<open>
  The derived flag is the bitwise union of its two parts, the value \<open>0x12\<close>, and the
  owner sentinel is not the null pointer.
\<close>

lemma mem_check_nonsecure_union:
  "MEM_CHECK_NONSECURE = MEM_CHECK_AU_NONSECURE OR MEM_CHECK_MPU_NONSECURE"
  "MEM_CHECK_NONSECURE = 0x12"
  by (simp_all add: MEM_CHECK_NONSECURE_def MEM_CHECK_AU_NONSECURE_def
      MEM_CHECK_MPU_NONSECURE_def)

lemma owner_magic_not_null: "CLIENT_ID_OWNER_MAGIC \<noteq> NULL"
  by (simp add: CLIENT_ID_OWNER_MAGIC_def NULL_def)

section \<open>Properties of the region classifier\<close>

lemma matches_iff: "matches r p s = (s \<noteq> 0 \<and> fully_inside p s r)"
  by (simp add: matches_def contains_def fully_inside_def)

lemma inside_overlaps: "fully_inside p s r \<Longrightarrow> s \<noteq> 0 \<Longrightarrow> range_overlaps p s r"
proof -
  assume a: "fully_inside p s r" and b: "s \<noteq> 0"
  from b have "0 < unat s" by (simp add: unat_gt_0)
  with a show ?thesis by (simp add: fully_inside_def range_overlaps_def)
qed

lemma two_inside_overlap:
  "fully_inside p s r \<Longrightarrow> fully_inside p s r' \<Longrightarrow> s \<noteq> 0 \<Longrightarrow> regions_overlap r r'"
proof -
  assume a: "fully_inside p s r" and a': "fully_inside p s r'" and b: "s \<noteq> 0"
  from b have "0 < unat s" by (simp add: unat_gt_0)
  with a a' show ?thesis by (simp add: fully_inside_def regions_overlap_def)
qed

lemma overlap_inside:
  "range_overlaps p s r \<Longrightarrow> fully_inside p s r' \<Longrightarrow> regions_overlap r r'"
  by (simp add: fully_inside_def regions_overlap_def range_overlaps_def)

lemma regions_overlap_sym: "regions_overlap r r' = regions_overlap r' r"
  by (auto simp: regions_overlap_def)

lemma classify_valid_iff:
  "security_attr_info_t.is_valid (classify tbl p s) = list_ex (\<lambda>r. matches r p s) tbl"
  by (induction tbl) auto

text \<open>With no region containing the range, the classification is invalid.\<close>

lemma classify_not_inside:
  "list_all (\<lambda>r. \<not> fully_inside p s r) tbl \<Longrightarrow>
   security_attr_info_t.is_valid (classify tbl p s) = False"
  by (simp add: classify_valid_iff list_all_iff list_ex_iff matches_iff)

text \<open>In a well-formed table a non-empty range is inside one region at most.\<close>

lemma classify_inside:
  "non_overlapping tbl \<Longrightarrow> R \<in> set tbl \<Longrightarrow> fully_inside p s R \<Longrightarrow> s \<noteq> 0 \<Longrightarrow>
   classify tbl p s = \<lparr>security_attr_info_t.is_valid = True, is_secure = tag_secure R\<rparr>"
proof (induction tbl)
  case Nil
  then show ?case by simp
next
  case (Cons r rs)
  show ?case
  proof (cases "matches r p s")
    case True
    then have ins: "fully_inside p s r" by (simp add: matches_iff)
    have "R = r"
    proof (rule ccontr)
      assume "R \<noteq> r"
      with Cons.prems(2) have "R \<in> set rs" by simp
      with Cons.prems(1) have "\<not> regions_overlap r R" by (simp add: list_all_iff)
      moreover from ins Cons.prems(3,4) have "regions_overlap r R" by (rule two_inside_overlap)
      ultimately show False by simp
    qed
    with True show ?thesis by simp
  next
    case False
    from Cons.prems(3,4) have "matches R p s"
      by (simp add: matches_iff)
    with False have "R \<noteq> r" by auto
    with Cons.prems(2) have "R \<in> set rs" by simp
    with Cons.IH Cons.prems have
      "classify rs p s = \<lparr>security_attr_info_t.is_valid = True, is_secure = tag_secure R\<rparr>"
      by simp
    with False show ?thesis by simp
  qed
qed

lemma non_overlapping_distinct:
  "non_overlapping tbl \<Longrightarrow> r \<in> set tbl \<Longrightarrow> r' \<in> set tbl \<Longrightarrow> r \<noteq> r' \<Longrightarrow>
   \<not> regions_overlap r r'"
proof (induction tbl)
  case Nil
  then show ?case by simp
next
  case (Cons x xs)
  from Cons.prems(1) have head: "\<And>y. y \<in> set xs \<Longrightarrow> \<not> regions_overlap x y"
    and tail: "non_overlapping xs"
    by (simp_all add: list_all_iff)
  consider "r = x" "r' \<in> set xs" | "r' = x" "r \<in> set xs" | "r \<in> set xs" "r' \<in> set xs"
    using Cons.prems(2,3,4) by auto
  then show ?case
  proof cases
    case 1
    then show ?thesis using head by simp
  next
    case 2
    then show ?thesis using head regions_overlap_sym by blast
  next
    case 3
    then show ?thesis using Cons.IH tail Cons.prems(4) by simp
  qed
qed

lemma spans_two_not_inside:
  assumes no: "non_overlapping tbl" and sp: "spans_two tbl p s" and R: "R \<in> set tbl"
  shows "\<not> fully_inside p s R"
proof
  assume ins: "fully_inside p s R"
  from sp obtain r r' where rr: "r \<in> set tbl" "r' \<in> set tbl" "r \<noteq> r'"
    and ov: "range_overlaps p s r" "range_overlaps p s r'"
    by (auto simp: spans_two_def list_ex_iff)
  from ov(1) ins have o1: "regions_overlap r R" by (rule overlap_inside)
  from ov(2) ins have o2: "regions_overlap r' R" by (rule overlap_inside)
  from no rr(1) R o1 have "r = R" using non_overlapping_distinct by blast
  moreover from no rr(2) R o2 have "r' = R" using non_overlapping_distinct by blast
  ultimately show False using rr(3) by simp
qed

lemma overlaps_none_not_inside:
  assumes "overlaps_none tbl p s" "s \<noteq> 0" "R \<in> set tbl"
  shows "\<not> fully_inside p s R"
  using assms inside_overlaps by (auto simp: overlaps_none_def list_all_iff)

lemma boundary_table_non_overlapping: "non_overlapping boundary_table"
  by (simp add: boundary_table_def secure_ram_def ns_ram_def regions_overlap_def limit_def)

text \<open>
  A zero-size range is classified invalid, wherever it lies, and a zero-size region is
  never found.
\<close>

lemma zero_size_region_never_matches: "region_size r = 0 \<Longrightarrow> \<not> matches r p s"
proof
  assume z: "region_size r = 0" and m: "matches r p s"
  from m have "0 < unat s" by (simp add: matches_iff unat_gt_0)
  with z m show False by (simp add: matches_iff fully_inside_def limit_def)
qed

lemma classify_zero_size:
  "security_attr_info_t.is_valid (classify tbl p 0) = False"
  by (simp add: classify_valid_iff list_ex_iff matches_iff)

text \<open>
  C2. For every region \<open>R\<close> in the static layout table and every address range
  \<open>[p, p+s)\<close> fully contained in \<open>R\<close> (\<open>R.base \<le> p\<close> and \<open>p + s \<le> R.limit\<close>), classify
  returns \<open>is_valid = true\<close> and \<open>is_secure\<close> equal to the tag of \<open>R\<close>; for every range
  that spans two regions or overlaps no region, and more generally for every range
  that no region of the table fully contains, it returns \<open>is_valid = false\<close>. The
  ranges are the well-formed ones of the specification, which counts a zero range as
  malformed input, and the table is one of regions in the glossary's sense, which do
  not overlap.
\<close>

theorem classify_contained_range:
  assumes "non_overlapping (regions L)" and "s \<noteq> 0"
  shows "(R \<in> set (regions L) \<and> unat (region_base R) \<le> unat p \<and> unat p + unat s \<le> limit R
           \<longrightarrow> tfm_get_mem_region_security_attr L p s =
                 \<lparr>security_attr_info_t.is_valid = True, is_secure = tag_secure R\<rparr>)
       \<and> (spans_two (regions L) p s \<or> overlaps_none (regions L) p s
           \<longrightarrow> security_attr_info_t.is_valid (tfm_get_mem_region_security_attr L p s) = False)
       \<and> (list_all (\<lambda>r. \<not> fully_inside p s r) (regions L)
           \<longrightarrow> security_attr_info_t.is_valid (tfm_get_mem_region_security_attr L p s) = False)"
proof (intro conjI impI)
  assume "R \<in> set (regions L) \<and> unat (region_base R) \<le> unat p \<and> unat p + unat s \<le> limit R"
  then have "R \<in> set (regions L)" and "fully_inside p s R"
    by (simp_all add: fully_inside_def)
  with assms show "tfm_get_mem_region_security_attr L p s =
      \<lparr>security_attr_info_t.is_valid = True, is_secure = tag_secure R\<rparr>"
    unfolding tfm_get_mem_region_security_attr_def by (simp add: classify_inside)
next
  assume "spans_two (regions L) p s \<or> overlaps_none (regions L) p s"
  then have "list_all (\<lambda>r. \<not> fully_inside p s r) (regions L)"
    using assms spans_two_not_inside overlaps_none_not_inside
    unfolding list_all_iff by blast
  then show "security_attr_info_t.is_valid (tfm_get_mem_region_security_attr L p s) = False"
    unfolding tfm_get_mem_region_security_attr_def by (rule classify_not_inside)
next
  assume "list_all (\<lambda>r. \<not> fully_inside p s r) (regions L)"
  then show "security_attr_info_t.is_valid (tfm_get_mem_region_security_attr L p s) = False"
    unfolding tfm_get_mem_region_security_attr_def by (rule classify_not_inside)
qed

text \<open>
  The boundary scenario: \<open>classify(0x2000_0000, 0x800)\<close> is valid and secure, the whole
  of the non-secure region \<open>classify(0x2000_1000, 0x1000)\<close> is valid and non-secure, and
  \<open>classify(0x2000_0F00, 0x200)\<close>, which crosses the limit of the secure region into the
  next one, is invalid. So is \<open>classify(0x2000_1F00, 0x200)\<close>, which runs from the
  non-secure region into undeclared space.
\<close>

theorem classify_contained_range_witness:
  "tfm_get_mem_region_security_attr
       \<lparr>regions = boundary_table\<rparr> 0x20000000 0x800
     = \<lparr>security_attr_info_t.is_valid = True, is_secure = True\<rparr>
   \<and> tfm_get_mem_region_security_attr
       \<lparr>regions = boundary_table\<rparr> 0x20001000 0x1000
     = \<lparr>security_attr_info_t.is_valid = True, is_secure = False\<rparr>
   \<and> spans_two boundary_table 0x20000F00 0x200
   \<and> security_attr_info_t.is_valid (tfm_get_mem_region_security_attr
       \<lparr>regions = boundary_table\<rparr> 0x20000F00 0x200) = False
   \<and> list_all (\<lambda>r. \<not> fully_inside 0x20001F00 0x200 r) boundary_table
   \<and> security_attr_info_t.is_valid (tfm_get_mem_region_security_attr
       \<lparr>regions = boundary_table\<rparr> 0x20001F00 0x200) = False"
proof -
  let ?L = "\<lparr>regions = boundary_table\<rparr>"
  have wf: "non_overlapping (regions ?L)"
    by (simp add: boundary_table_non_overlapping)
  have s1: "(0x800 :: u32) \<noteq> 0" and s2: "(0x200 :: u32) \<noteq> 0"
    by simp_all
  have inside: "secure_ram \<in> set (regions ?L)
      \<and> unat (region_base secure_ram) \<le> unat (0x20000000 :: u32)
      \<and> unat (0x20000000 :: u32) + unat (0x800 :: u32) \<le> limit secure_ram"
    by (simp add: boundary_table_def secure_ram_def limit_def)
  have spans: "spans_two boundary_table 0x20000F00 0x200"
    by (simp add: boundary_table_def secure_ram_def ns_ram_def spans_two_def
        range_overlaps_def limit_def)
  have tag: "tag_secure secure_ram = True"
    by (simp add: secure_ram_def)
  from classify_contained_range [OF wf s1, of secure_ram "0x20000000"] inside tag
  have a: "tfm_get_mem_region_security_attr ?L 0x20000000 0x800
      = \<lparr>security_attr_info_t.is_valid = True, is_secure = True\<rparr>"
    by simp
  from classify_contained_range [OF wf s2, of secure_ram "0x20000F00"] spans
  have b: "security_attr_info_t.is_valid
      (tfm_get_mem_region_security_attr ?L 0x20000F00 0x200) = False"
    by simp
  have outside: "list_all (\<lambda>r. \<not> fully_inside 0x20001F00 0x200 r) boundary_table"
    by (simp add: boundary_table_def secure_ram_def ns_ram_def fully_inside_def limit_def)
  from classify_contained_range [OF wf s2, of secure_ram "0x20001F00"] outside
  have c: "security_attr_info_t.is_valid
      (tfm_get_mem_region_security_attr ?L 0x20001F00 0x200) = False"
    by simp
  have inside_ns: "ns_ram \<in> set (regions ?L)
      \<and> unat (region_base ns_ram) \<le> unat (0x20001000 :: u32)
      \<and> unat (0x20001000 :: u32) + unat (0x1000 :: u32) \<le> limit ns_ram"
    by (simp add: boundary_table_def ns_ram_def limit_def)
  have s3: "(0x1000 :: u32) \<noteq> 0" and tag_ns: "tag_secure ns_ram = False"
    by (simp_all add: ns_ram_def)
  from classify_contained_range [OF wf s3, of ns_ram "0x20001000"] inside_ns tag_ns
  have d: "tfm_get_mem_region_security_attr ?L 0x20001000 0x1000
      = \<lparr>security_attr_info_t.is_valid = True, is_secure = False\<rparr>"
    by simp
  from a d spans b outside c show ?thesis by simp
qed

section \<open>Properties of the client-identity registry\<close>

lemma bind_slot_None: "slot_owner irq reg = None \<Longrightarrow> bind_slot ow irq reg = Inl NotFound"
  by (induction reg) (auto split: if_splits)

lemma bind_slot_bound:
  "slot_owner irq reg = Some o' \<Longrightarrow> o' \<noteq> CLIENT_ID_OWNER_MAGIC \<Longrightarrow>
   bind_slot ow irq reg = Inl AlreadyRegistered"
  by (induction reg) (auto split: if_splits)

lemma bind_slot_free:
  "slot_owner irq reg = Some CLIENT_ID_OWNER_MAGIC \<Longrightarrow> \<exists>reg'. bind_slot ow irq reg = Inr reg'"
  by (induction reg) (auto split: if_splits)

lemma bind_slot_owner:
  "bind_slot ow irq reg = Inr reg' \<Longrightarrow>
   slot_owner irq' reg' = (if irq' = irq then Some ow else slot_owner irq' reg)"
  by (induction reg arbitrary: reg') (auto split: if_splits sum.splits)

lemma bind_slot_was_free:
  "bind_slot ow irq reg = Inr reg' \<Longrightarrow> slot_owner irq reg = Some CLIENT_ID_OWNER_MAGIC"
  by (induction reg arbitrary: reg') (auto split: if_splits sum.splits)

lemma bind_slot_list_all:
  "bind_slot ow irq reg = Inr reg' \<Longrightarrow> list_all P reg \<Longrightarrow>
   (\<And>sl. irq_source sl = irq \<Longrightarrow> P sl \<Longrightarrow> P (sl\<lparr>owner := ow\<rparr>)) \<Longrightarrow> list_all P reg'"
  by (induction reg arbitrary: reg') (auto split: if_splits sum.splits)

lemma bind_slot_first_match_only:
  "bind_slot ow irq reg = Inr reg' \<Longrightarrow> first_match_only reg \<Longrightarrow> first_match_only reg'"
proof (induction reg arbitrary: reg')
  case Nil
  then show ?case by simp
next
  case (Cons sl rest)
  show ?case
  proof (cases "irq_source sl = irq")
    case True
    with Cons.prems show ?thesis by (auto split: if_splits)
  next
    case False
    with Cons.prems(1) obtain rest' where r: "bind_slot ow irq rest = Inr rest'"
      and reg': "reg' = sl # rest'"
      by (auto split: sum.splits)
    from Cons.prems(2) have a: "list_all (\<lambda>sl'. irq_source sl' \<noteq> irq_source sl \<or>
        owner sl' = CLIENT_ID_OWNER_MAGIC) rest" and b: "first_match_only rest"
      by simp_all
    from r a have "list_all (\<lambda>sl'. irq_source sl' \<noteq> irq_source sl \<or>
        owner sl' = CLIENT_ID_OWNER_MAGIC) rest'"
      by (rule bind_slot_list_all) (use False in auto)
    moreover from r b have "first_match_only rest'" by (rule Cons.IH)
    ultimately show ?thesis by (simp add: reg')
  qed
qed

lemma unregistered_first_match_only: "unregistered reg \<Longrightarrow> first_match_only reg"
  by (induction reg) (auto simp: unregistered_def list_all_iff)

lemma first_match_only_bound:
  "first_match_only reg \<Longrightarrow> length (bound_slots irq reg) \<le> 1"
proof (induction reg)
  case Nil
  then show ?case by (simp add: bound_slots_def)
next
  case (Cons sl rest)
  then have ih: "length (bound_slots irq rest) \<le> 1" by simp
  show ?case
  proof (cases "irq_source sl = irq \<and> owner sl \<noteq> CLIENT_ID_OWNER_MAGIC")
    case True
    with Cons.prems have "bound_slots irq rest = []"
      by (auto simp: bound_slots_def filter_empty_conv list_all_iff)
    with True show ?thesis by (simp add: bound_slots_def)
  next
    case False
    with ih show ?thesis by (auto simp: bound_slots_def)
  qed
qed

lemma unregistered_slot_owner:
  "unregistered reg \<Longrightarrow> list_ex (\<lambda>sl. irq_source sl = irq) reg \<Longrightarrow>
   slot_owner irq reg = Some CLIENT_ID_OWNER_MAGIC"
  by (induction reg) (auto simp: unregistered_def)

text \<open>One call, then a sequence of calls.\<close>

lemma step_slot_owner_bound:
  assumes "slot_owner irq' reg = Some o'" "o' \<noteq> CLIENT_ID_OWNER_MAGIC"
  shows "slot_owner irq' (after_call ow irq reg) = Some o'"
proof (cases "register_range ow irq reg")
  case (Inl e)
  then show ?thesis using assms by (simp add: after_call_def)
next
  case (Inr reg')
  then have b: "bind_slot ow irq reg = Inr reg'"
    by (simp add: register_range_def split: if_splits)
  then have "slot_owner irq reg = Some CLIENT_ID_OWNER_MAGIC" by (rule bind_slot_was_free)
  with assms have "irq' \<noteq> irq" by auto
  with b assms Inr show ?thesis
    by (simp add: after_call_def bind_slot_owner)
qed

lemma step_slot_owner_free:
  assumes "slot_owner irq' reg = Some CLIENT_ID_OWNER_MAGIC" "irq \<noteq> irq' \<or> \<not> valid_owner ow"
  shows "slot_owner irq' (after_call ow irq reg) = Some CLIENT_ID_OWNER_MAGIC"
proof (cases "register_range ow irq reg")
  case (Inl e)
  then show ?thesis using assms by (simp add: after_call_def)
next
  case (Inr reg')
  then have b: "bind_slot ow irq reg = Inr reg'" and v: "valid_owner ow"
    by (simp_all add: register_range_def valid_owner_def split: if_splits)
  with assms have "irq' \<noteq> irq" by auto
  with b assms Inr show ?thesis
    by (simp add: after_call_def bind_slot_owner)
qed

lemma step_first_match_only:
  "first_match_only reg \<Longrightarrow> first_match_only (after_call ow irq reg)"
  by (cases "register_range ow irq reg")
    (auto simp: after_call_def register_range_def bind_slot_first_match_only split: if_splits)

lemma register_all_bound:
  "slot_owner irq reg = Some o' \<Longrightarrow> o' \<noteq> CLIENT_ID_OWNER_MAGIC \<Longrightarrow>
   slot_owner irq (register_all calls reg) = Some o'"
  by (induction calls reg rule: register_all.induct) (simp_all add: step_slot_owner_bound)

lemma register_all_free:
  "slot_owner irq reg = Some CLIENT_ID_OWNER_MAGIC \<Longrightarrow>
   list_all (\<lambda>(ow', irq'). irq' \<noteq> irq \<or> \<not> valid_owner ow') calls \<Longrightarrow>
   slot_owner irq (register_all calls reg) = Some CLIENT_ID_OWNER_MAGIC"
  by (induction calls reg rule: register_all.induct) (simp_all add: step_slot_owner_free)

lemma register_all_first_match_only:
  "first_match_only reg \<Longrightarrow> first_match_only (register_all calls reg)"
  by (induction calls reg rule: register_all.induct) (simp_all add: step_first_match_only)

lemma register_range_owner:
  "register_range ow irq reg = Inr reg' \<Longrightarrow> valid_owner ow \<and> slot_owner irq reg' = Some ow"
  by (auto simp: register_range_def valid_owner_def bind_slot_owner split: if_splits)

lemma register_range_bound:
  "slot_owner irq reg = Some o' \<Longrightarrow> o' \<noteq> CLIENT_ID_OWNER_MAGIC \<Longrightarrow>
   register_range ow irq reg = (if valid_owner ow then Inl AlreadyRegistered else Inl InvalidOwner)"
  by (auto simp: register_range_def valid_owner_def bind_slot_bound)

lemmas registry_simps =
  register_range_def after_call_def scenario_slot_def ownerA_def ownerB_def NULL_def
  CLIENT_ID_OWNER_MAGIC_def valid_owner_def unregistered_def bound_slots_def

text \<open>
  C3. \<open>register_range\<close> is exactly-once per \<open>irq_source\<close>. Starting from the table as
  built, for every \<open>irq_source\<close> with a matching slot the first call with a valid
  non-sentinel owner succeeds and binds the owner, whatever calls for other sources or
  with malformed owners came before. After a successful registration, and after any
  further calls, the binding stays and every later call for the same \<open>irq_source\<close>
  fails, whatever its owner; with any real owner, the same or another, it fails with
  AlreadyRegistered (a null or sentinel owner is malformed input, refused as such).
  Hence each \<open>irq_source\<close> is bound to a non-sentinel owner in
  at most one slot at any time.
\<close>

theorem register_exactly_once:
  "(unregistered reg0 \<and> list_ex (\<lambda>sl. irq_source sl = irq) reg0 \<and> valid_owner ow
      \<and> list_all (\<lambda>(ow', irq'). irq' \<noteq> irq \<or> \<not> valid_owner ow') earlier
     \<longrightarrow> (\<exists>reg'. register_range ow irq (register_all earlier reg0) = Inr reg'
            \<and> slot_owner irq reg' = Some ow))
   \<and> (register_range ow irq reg = Inr reg'
     \<longrightarrow> slot_owner irq (register_all later reg') = Some ow
       \<and> (valid_owner ow2
           \<longrightarrow> register_range ow2 irq (register_all later reg') = Inl AlreadyRegistered)
       \<and> isl (register_range ow2 irq (register_all later reg')))
   \<and> (unregistered reg0 \<longrightarrow> length (bound_slots irq (register_all calls reg0)) \<le> 1)"
proof (intro conjI impI)
  assume a: "unregistered reg0 \<and> list_ex (\<lambda>sl. irq_source sl = irq) reg0 \<and> valid_owner ow
      \<and> list_all (\<lambda>(ow', irq'). irq' \<noteq> irq \<or> \<not> valid_owner ow') earlier"
  then have "slot_owner irq reg0 = Some CLIENT_ID_OWNER_MAGIC"
    by (simp add: unregistered_slot_owner)
  with a have free: "slot_owner irq (register_all earlier reg0) = Some CLIENT_ID_OWNER_MAGIC"
    by (simp add: register_all_free)
  then obtain reg' where b: "bind_slot ow irq (register_all earlier reg0) = Inr reg'"
    using bind_slot_free by blast
  with a have "register_range ow irq (register_all earlier reg0) = Inr reg'"
    by (simp add: register_range_def valid_owner_def)
  moreover from b have "slot_owner irq reg' = Some ow"
    by (simp add: bind_slot_owner)
  ultimately show "\<exists>reg'. register_range ow irq (register_all earlier reg0) = Inr reg'
      \<and> slot_owner irq reg' = Some ow"
    by blast
next
  assume r: "register_range ow irq reg = Inr reg'"
  then have v: "valid_owner ow" and o: "slot_owner irq reg' = Some ow"
    by (simp_all add: register_range_owner)
  from v have m: "ow \<noteq> CLIENT_ID_OWNER_MAGIC"
    by (simp add: valid_owner_def)
  from o m show kept: "slot_owner irq (register_all later reg') = Some ow"
    by (rule register_all_bound)
  note fails = register_range_bound [OF kept m, of ow2]
  from fails show "register_range ow2 irq (register_all later reg') = Inl AlreadyRegistered"
    if "valid_owner ow2" using that by simp
  from fails show "isl (register_range ow2 irq (register_all later reg'))"
    by simp
next
  assume "unregistered reg0"
  then have "first_match_only (register_all calls reg0)"
    by (simp add: unregistered_first_match_only register_all_first_match_only)
  then show "length (bound_slots irq (register_all calls reg0)) \<le> 1"
    by (rule first_match_only_bound)
qed

text \<open>
  The registry scenario: after a call with the null owner and a call for a source
  without a slot, \<open>register_range(ownerA, 5)\<close> succeeds; after a further call for another
  source, \<open>register_range(ownerB, 5)\<close> and a repeated \<open>register_range(ownerA, 5)\<close> fail
  with AlreadyRegistered, and the slot stays bound to \<open>ownerA\<close>.
\<close>

theorem register_exactly_once_witness:
  "slot_owner 5 [scenario_slot\<lparr>owner := ownerA\<rparr>] = Some ownerA
   \<and> register_range ownerA 5 (register_all [(NULL, 5), (ownerB, 7)] [scenario_slot])
     = Inr [scenario_slot\<lparr>owner := ownerA\<rparr>]
   \<and> register_range ownerB 5 (register_all [(ownerB, 7)] [scenario_slot\<lparr>owner := ownerA\<rparr>])
     = Inl AlreadyRegistered
   \<and> register_range ownerA 5 (register_all [(ownerB, 7)] [scenario_slot\<lparr>owner := ownerA\<rparr>])
     = Inl AlreadyRegistered
   \<and> slot_owner 5 (register_all [(ownerB, 7)] [scenario_slot\<lparr>owner := ownerA\<rparr>])
     = Some ownerA
   \<and> length (bound_slots 5 (register_all [(ownerA, 5), (ownerB, 5)] [scenario_slot])) \<le> 1"
proof -
  have h1: "unregistered [scenario_slot] \<and> list_ex (\<lambda>sl. irq_source sl = 5) [scenario_slot]
      \<and> valid_owner ownerA
      \<and> list_all (\<lambda>(ow', irq'). irq' \<noteq> (5 :: u32) \<or> \<not> valid_owner ow')
            [(NULL, 5), (ownerB, 7)]"
    by (simp add: registry_simps)
  have h2: "register_range ownerA 5 [scenario_slot] = Inr [scenario_slot\<lparr>owner := ownerA\<rparr>]"
    by (simp add: registry_simps)
  have h3: "valid_owner ownerB" "valid_owner ownerA"
    by (simp_all add: registry_simps)
  have h4: "unregistered [scenario_slot]"
    by (simp add: registry_simps)
  have e: "register_all [(NULL, 5), (ownerB, 7)] [scenario_slot] = [scenario_slot]"
    by (simp add: registry_simps)
  note t1 = register_exactly_once [where ?reg0.0 = "[scenario_slot]" and irq = 5
      and ow = ownerA and earlier = "[(NULL, 5), (ownerB, 7)]" and reg = "[scenario_slot]"
      and reg' = "[scenario_slot\<lparr>owner := ownerA\<rparr>]" and later = "[(ownerB, 7)]"
      and ?ow2.0 = ownerB and calls = "[(ownerA, 5), (ownerB, 5)]"]
  note t2 = register_exactly_once [where ?reg0.0 = "[scenario_slot]" and irq = 5
      and ow = ownerA and earlier = "[(NULL, 5), (ownerB, 7)]" and reg = "[scenario_slot]"
      and reg' = "[scenario_slot\<lparr>owner := ownerA\<rparr>]" and later = "[(ownerB, 7)]"
      and ?ow2.0 = ownerA and calls = "[(ownerA, 5), (ownerB, 5)]"]
  from t1 h1 obtain r where r: "register_range ownerA 5
      (register_all [(NULL, 5), (ownerB, 7)] [scenario_slot]) = Inr r"
    and bound: "slot_owner 5 r = Some ownerA"
    by blast
  from r have "r = [scenario_slot\<lparr>owner := ownerA\<rparr>]"
    unfolding e h2 by simp
  with r bound have c1: "register_range ownerA 5 (register_all [(NULL, 5), (ownerB, 7)]
      [scenario_slot]) = Inr [scenario_slot\<lparr>owner := ownerA\<rparr>]"
    and c0: "slot_owner 5 [scenario_slot\<lparr>owner := ownerA\<rparr>] = Some ownerA"
    by simp_all
  from t1 h2 h3 have c2: "register_range ownerB 5
      (register_all [(ownerB, 7)] [scenario_slot\<lparr>owner := ownerA\<rparr>]) = Inl AlreadyRegistered"
    by blast
  from t2 h2 h3 have c3: "register_range ownerA 5
      (register_all [(ownerB, 7)] [scenario_slot\<lparr>owner := ownerA\<rparr>]) = Inl AlreadyRegistered"
    by blast
  from t1 h2 have c5: "slot_owner 5
      (register_all [(ownerB, 7)] [scenario_slot\<lparr>owner := ownerA\<rparr>]) = Some ownerA"
    by blast
  from t1 h4 have c4: "length (bound_slots 5 (register_all [(ownerA, 5), (ownerB, 5)]
      [scenario_slot])) \<le> 1"
    by blast
  from c0 c1 c2 c3 c4 c5 show ?thesis by blast
qed

end
